theory Spec2Isabelle
  imports Main "HOL-Library.Multiset"
begin

section \<open>The prefetch handler factory of the course component\<close>

text \<open>
  The source is \<^verbatim>\<open>www/core/components/course/services/prefetchfactory.js\<close>: a template
  object \<^verbatim>\<open>modulePrefetchHandler\<close> with some twenty methods, and the factory method
  \<^verbatim>\<open>createPrefetchHandler\<close> that makes a child of the template for a component.
  The services the file injects (\<^verbatim>\<open>$mmSite\<close>, \<^verbatim>\<open>$mmFilepool\<close>, \<^verbatim>\<open>$mmUtil\<close>,
  \<^verbatim>\<open>$q\<close>) are not part of it. The first three are parameters of the model (the record
  \<open>services\<close> below); of \<^verbatim>\<open>$q\<close> the model keeps what the file uses: a promise is
  the outcome it settles with.
\<close>

subsection \<open>Data\<close>

text \<open>
  A file entry as the web service returns it, or a fake file object made from a URL found
  in HTML. The source reads three of its properties; each may be missing
  (\<^verbatim>\<open>undefined\<close>), which is \<open>None\<close>.
\<close>

record file_entry =
  ftype :: "string option"
  fileurl :: "string option"
  timemodified :: "int option"

text \<open>The module object: \<^verbatim>\<open>module.id\<close>, \<^verbatim>\<open>module.contents\<close> (an array) and
  \<^verbatim>\<open>module.description\<close>.\<close>

record course_module =
  module_id :: int
  contents :: "file_entry list"
  description :: "string option"

text \<open>The optional second argument of \<^verbatim>\<open>getIntroFilesFromInstance\<close> (a book, an
  assign, ...).\<close>

record mod_instance =
  introfiles :: "file_entry list option"
  intro :: "string option"

text \<open>The object \<^verbatim>\<open>getRevisionAndTimemodified\<close> resolves with.\<close>

record fingerprint =
  timemod :: int
  revision :: int

subsection \<open>Promises\<close>

text \<open>
  A promise is modelled by its outcome. \<open>q_then\<close> is \<^verbatim>\<open>promise.then(cb)\<close> for a
  callback that returns a promise (a callback that returns a plain value returns
  \<open>Resolved\<close> of it), \<open>q_all\<close> is \<^verbatim>\<open>$q.all\<close> (the values of the list in its
  order, or the first rejection in it) and \<open>q_when\<close> is \<^verbatim>\<open>$q.when\<close>, which leaves a
  promise as it is and wraps any other value.
\<close>

type_synonym reason = string

datatype 'a promise = Resolved 'a | Rejected reason

datatype 'a value_or_promise = Plain 'a | Promise "'a promise"

definition q_then :: "'a promise \<Rightarrow> ('a \<Rightarrow> 'b promise) \<Rightarrow> 'b promise" where
  "q_then p cb = (case p of Resolved v \<Rightarrow> cb v | Rejected r \<Rightarrow> Rejected r)"

fun q_all :: "'a promise list \<Rightarrow> 'a list promise" where
  "q_all [] = Resolved []"
| "q_all (p # ps) =
     (case p of
        Rejected r \<Rightarrow> Rejected r
      | Resolved v \<Rightarrow> q_then (q_all ps) (\<lambda>vs. Resolved (v # vs)))"

definition q_when :: "'a value_or_promise \<Rightarrow> 'a promise" where
  "q_when x = (case x of Plain v \<Rightarrow> Resolved v | Promise p \<Rightarrow> p)"

text \<open>
  A callback that also changes a variable of the enclosing function, or calls the file
  pool, takes the state and returns the new one beside its promise.
\<close>

type_synonym ('s, 'a) task = "'s \<Rightarrow> 'a promise \<times> 's"

definition then_task :: "'a promise \<Rightarrow> ('a \<Rightarrow> ('s, 'b) task) \<Rightarrow> ('s, 'b) task" where
  "then_task p cb s = (case p of Resolved v \<Rightarrow> cb v s | Rejected r \<Rightarrow> (Rejected r, s))"

definition catch_task :: "('s, 'a) task \<Rightarrow> (reason \<Rightarrow> ('s, 'a) task) \<Rightarrow> ('s, 'a) task" where
  "catch_task t cb s =
     (case t s of
        (Resolved v, s') \<Rightarrow> (Resolved v, s')
      | (Rejected r, s') \<Rightarrow> cb r s')"

text \<open>JavaScript's truth value of an optional string: \<^verbatim>\<open>undefined\<close> and the empty
  string are false.\<close>

definition truthy :: "string option \<Rightarrow> bool" where
  "truthy s = (case s of None \<Rightarrow> False | Some t \<Rightarrow> t \<noteq> [])"

subsection \<open>Objects and the prototype chain\<close>

text \<open>
  A handler is a JavaScript object: its own properties, and the object it inherits from.
  A property holds a string (\<^verbatim>\<open>component\<close>), one of the template's functions, named
  by the property the template stores it under, or a function of the caller's.
\<close>

datatype jsval = Str string | TemplateFn string | CallerFn nat

datatype obj = Obj (own: "(string \<times> jsval) list") (proto: "obj option")

fun get_prop :: "obj \<Rightarrow> string \<Rightarrow> jsval option" where
  "get_prop (Obj ps None) n = map_of ps n"
| "get_prop (Obj ps (Some p)) n =
     (case map_of ps n of Some v \<Rightarrow> Some v | None \<Rightarrow> get_prop p n)"

fun set_prop :: "obj \<Rightarrow> string \<Rightarrow> jsval \<Rightarrow> obj" where
  "set_prop (Obj ps p) n v = Obj ((n, v) # ps) p"

text \<open>\<^verbatim>\<open>Object.create(o)\<close>: a new object with no property of its own.\<close>

definition object_create :: "obj \<Rightarrow> obj" where
  "object_create p = Obj [] (Some p)"

definition method_names :: "string list" where
  "method_names =
     [''download'', ''downloadOrPrefetch'', ''getContentDownloadableFiles'',
      ''getDownloadSize'', ''getDownloadedSize'', ''getDownloadingFilesEventNames'',
      ''getFileEventNames'', ''getFiles'', ''getIntroFiles'', ''getIntroFilesFromInstance'',
      ''getRevision'', ''getRevisionAndTimemodified'', ''getTimemodified'',
      ''invalidateContent'', ''isDownloadable'', ''isEnabled'', ''isFileDownloadable'',
      ''prefetchContent'', ''removeFiles'']"

definition modulePrefetchHandler :: obj where
  "modulePrefetchHandler =
     Obj ((''component'', Str ''core_res'') # map (\<lambda>n. (n, TemplateFn n)) method_names) None"

definition createPrefetchHandler :: "string \<Rightarrow> obj" where
  "createPrefetchHandler component =
     (let child = object_create modulePrefetchHandler
      in set_prop child ''component'' (Str component))"

subsection \<open>The injected services\<close>

text \<open>
  A call of the file pool that changes it. The arguments are the source's, in its order;
  the component is whatever \<^verbatim>\<open>this.component\<close> holds, and the last argument of a
  package call is the directory, \<open>None\<close> where the source passes none.
\<close>

datatype pool_call =
    AddToQueueByUrl string "string option" "jsval option" int "int option"
  | DownloadUrl string "string option" bool "jsval option" int "int option"
  | DownloadPackage string "file_entry list" "jsval option" int int int "string option"
  | PrefetchPackage string "file_entry list" "jsval option" int int int "string option"
  | InvalidateFilesByComponent string "jsval option" int
  | RemoveFilesByComponent string "jsval option" int

record services =
  getId :: string
  canDownloadFiles :: bool
  extractDownloadableFilesFromHtmlAsFakeFileObjects :: "string \<Rightarrow> file_entry list"
  sumFileSizes :: "file_entry list \<Rightarrow> int \<times> bool"
  getTimemodifiedFromFileList :: "file_entry list \<Rightarrow> int"
  getRevisionFromFileList :: "file_entry list \<Rightarrow> int"
  isFileDownloadingByUrl :: "string \<Rightarrow> string option \<Rightarrow> unit promise"
  getFileEventNameByUrl :: "string \<Rightarrow> string option \<Rightarrow> string promise"
  getFilesSizeByComponent :: "string \<Rightarrow> jsval option \<Rightarrow> int \<Rightarrow> int promise"
  pool_outcome :: "pool_call \<Rightarrow> unit promise"

text \<open>Calling the file pool appends the call to the calls made so far and gives the
  promise the pool answers with.\<close>

definition pool :: "services \<Rightarrow> pool_call \<Rightarrow> (pool_call list, unit) task" where
  "pool sv c calls = (pool_outcome sv c, calls @ [c])"

subsection \<open>The template's methods\<close>

text \<open>
  Each definition is the body of the method of the same name. \<open>this\<close> is a parameter
  of the methods that read \<^verbatim>\<open>this.component\<close>. A call \<^verbatim>\<open>this.f(...)\<close> is the call of
  the template's \<open>f\<close>: on the template and on every object \<open>createPrefetchHandler\<close> makes,
  \<open>f\<close> resolves to the template's function (\<open>createPrefetchHandler_methods\<close> below).
  \<^verbatim>\<open>angular.forEach\<close> over an array is a left fold.
\<close>

definition isFileDownloadable :: "file_entry \<Rightarrow> bool" where
  "isFileDownloadable file = (ftype file = Some ''file'')"

definition getContentDownloadableFiles :: "course_module \<Rightarrow> file_entry list" where
  "getContentDownloadableFiles module =
     foldl (\<lambda>files content. if isFileDownloadable content then files @ [content] else files)
       [] (contents module)"

definition getIntroFilesFromInstance ::
  "services \<Rightarrow> course_module \<Rightarrow> mod_instance option \<Rightarrow> file_entry list value_or_promise" where
  "getIntroFilesFromInstance sv module inst =
     (case (case inst of
              None \<Rightarrow> None
            | Some i \<Rightarrow>
                (case introfiles i of
                   Some fs \<Rightarrow> Some (Plain fs)
                 | None \<Rightarrow>
                     if truthy (intro i)
                     then Some (Plain (extractDownloadableFilesFromHtmlAsFakeFileObjects sv
                                         (the (intro i))))
                     else None)) of
        Some returned \<Rightarrow> returned
      | None \<Rightarrow>
          if truthy (description module)
          then Promise (q_when (Plain (extractDownloadableFilesFromHtmlAsFakeFileObjects sv
                                         (the (description module)))))
          else Plain [])"

definition getIntroFiles :: "services \<Rightarrow> course_module \<Rightarrow> int \<Rightarrow> file_entry list promise" where
  "getIntroFiles sv module courseId = q_when (getIntroFilesFromInstance sv module None)"

definition getFiles :: "services \<Rightarrow> course_module \<Rightarrow> int \<Rightarrow> file_entry list promise" where
  "getFiles sv module courseId =
     q_then (getIntroFiles sv module courseId)
       (\<lambda>files. Resolved (files @ getContentDownloadableFiles module))"

definition getDownloadSize :: "services \<Rightarrow> course_module \<Rightarrow> int \<Rightarrow> (int \<times> bool) promise" where
  "getDownloadSize sv module courseId =
     q_then (getFiles sv module courseId) (\<lambda>files. Resolved (sumFileSizes sv files))"

definition getDownloadedSize :: "services \<Rightarrow> obj \<Rightarrow> course_module \<Rightarrow> int \<Rightarrow> int promise" where
  "getDownloadedSize sv this module courseId =
     getFilesSizeByComponent sv (getId sv) (get_prop this ''component'') (module_id module)"

definition getRevisionAndTimemodified ::
  "services \<Rightarrow> course_module \<Rightarrow> int \<Rightarrow> file_entry list option \<Rightarrow> fingerprint promise" where
  "getRevisionAndTimemodified sv module courseId introFiles =
     (let promise = (case introFiles of
                       Some fs \<Rightarrow> q_when (Plain fs)
                     | None \<Rightarrow> getIntroFiles sv module courseId)
      in q_then promise
           (\<lambda>files.
              let files = files @ contents module
              in Resolved \<lparr>timemod = getTimemodifiedFromFileList sv files,
                           revision = getRevisionFromFileList sv files\<rparr>))"

definition getRevision :: "services \<Rightarrow> course_module \<Rightarrow> int \<Rightarrow> int promise" where
  "getRevision sv module courseId =
     q_then (getRevisionAndTimemodified sv module courseId None)
       (\<lambda>data. Resolved (revision data))"

definition getTimemodified :: "services \<Rightarrow> course_module \<Rightarrow> int \<Rightarrow> int promise" where
  "getTimemodified sv module courseId =
     q_then (getRevisionAndTimemodified sv module courseId None)
       (\<lambda>data. Resolved (timemod data))"

definition invalidateContent :: "services \<Rightarrow> obj \<Rightarrow> int \<Rightarrow> (pool_call list, unit) task" where
  "invalidateContent sv this moduleId =
     pool sv (InvalidateFilesByComponent (getId sv) (get_prop this ''component'') moduleId)"

definition removeFiles ::
  "services \<Rightarrow> obj \<Rightarrow> course_module \<Rightarrow> int \<Rightarrow> (pool_call list, unit) task" where
  "removeFiles sv this module courseId =
     pool sv (RemoveFilesByComponent (getId sv) (get_prop this ''component'') (module_id module))"

definition isDownloadable :: "course_module \<Rightarrow> int \<Rightarrow> bool promise" where
  "isDownloadable module courseId = q_when (Plain (length (contents module) > 0))"

definition isEnabled :: "services \<Rightarrow> bool" where
  "isEnabled sv = canDownloadFiles sv"

definition getFileEventNames :: "services \<Rightarrow> course_module \<Rightarrow> string list promise" where
  "getFileEventNames sv module =
     (let siteId = getId sv;
          promises =
            foldl (\<lambda>promises content.
                     let url = fileurl content
                     in if \<not> isFileDownloadable content then promises
                        else promises @ [getFileEventNameByUrl sv siteId url])
              [] (contents module)
      in q_all promises)"

text \<open>
  \<^verbatim>\<open>getDownloadingFilesEventNames\<close> pushes one promise for each downloadable content:
  the chain below, whose callback appends to \<^verbatim>\<open>eventNames\<close>. The callbacks run when
  the file pool answers, in an order the source does not fix: \<open>order\<close> lists the
  positions of \<^verbatim>\<open>promises\<close> in the order in which their chains complete (a permutation
  of \<open>[0..<length promises]\<close>). \<^verbatim>\<open>$q.all\<close> settles after the last of them.
\<close>

definition pushEventName :: "services \<Rightarrow> file_entry \<Rightarrow> (string list, unit) task" where
  "pushEventName sv content =
     (let siteId = getId sv;
          url = fileurl content
      in catch_task
           (then_task (isFileDownloadingByUrl sv siteId url)
              (\<lambda>_. then_task (getFileEventNameByUrl sv siteId url)
                     (\<lambda>eventName eventNames. (Resolved (), eventNames @ [eventName]))))
           (\<lambda>_ eventNames. (Resolved (), eventNames)))"

fun run_tasks :: "('s, 'a) task list \<Rightarrow> 's \<Rightarrow> 'a promise list \<times> 's" where
  "run_tasks [] s = ([], s)"
| "run_tasks (t # ts) s =
     (let (p, s') = t s;
          (ps, s'') = run_tasks ts s'
      in (p # ps, s''))"

definition getDownloadingFilesEventNames ::
  "services \<Rightarrow> nat list \<Rightarrow> course_module \<Rightarrow> string list promise" where
  "getDownloadingFilesEventNames sv order module =
     (let promises =
            foldl (\<lambda>promises content.
                     if \<not> isFileDownloadable content then promises
                     else promises @ [pushEventName sv content])
              [] (contents module);
          (settled, eventNames) = run_tasks (map (\<lambda>i. promises ! i) order) []
      in q_then (q_all settled) (\<lambda>_. Resolved eventNames))"

text \<open>
  \<^verbatim>\<open>downloadOrPrefetch\<close>: the calls of the file pool are made one after the other inside
  the inner callback, so the state is the list of the calls made so far.
\<close>

definition downloadOrPrefetch ::
  "services \<Rightarrow> obj \<Rightarrow> course_module \<Rightarrow> int \<Rightarrow> bool \<Rightarrow> string option
     \<Rightarrow> (pool_call list, unit list) task" where
  "downloadOrPrefetch sv this module courseId prefetch dirPath =
     (let siteId = getId sv
      in then_task (getIntroFiles sv module courseId)
           (\<lambda>introFiles.
              then_task (getRevisionAndTimemodified sv module courseId (Some introFiles))
                (\<lambda>data calls.
                   let downloadFn = (if prefetch then PrefetchPackage else DownloadPackage);
                       contentFiles = getContentDownloadableFiles module
                   in if truthy dirPath
                      then
                        let (promises, calls) =
                              foldl (\<lambda>(promises, calls) file.
                                       let (p, calls) =
                                             (if prefetch
                                              then pool sv (AddToQueueByUrl siteId (fileurl file)
                                                     (get_prop this ''component'')
                                                     (module_id module) (timemodified file)) calls
                                              else pool sv (DownloadUrl siteId (fileurl file) False
                                                     (get_prop this ''component'')
                                                     (module_id module) (timemodified file)) calls)
                                       in (promises @ [p], calls))
                                ([], calls) introFiles;
                            (p, calls) =
                              pool sv (downloadFn siteId contentFiles
                                (get_prop this ''component'') (module_id module)
                                (revision data) (timemod data) dirPath) calls
                        in (q_all (promises @ [p]), calls)
                      else
                        let files = introFiles @ contentFiles;
                            (p, calls) =
                              pool sv (downloadFn siteId files
                                (get_prop this ''component'') (module_id module)
                                (revision data) (timemod data) None) calls
                        in (q_all [p], calls))))"

definition download ::
  "services \<Rightarrow> obj \<Rightarrow> course_module \<Rightarrow> int \<Rightarrow> (pool_call list, unit list) task" where
  "download sv this module courseId = downloadOrPrefetch sv this module courseId False None"

definition prefetchContent ::
  "services \<Rightarrow> obj \<Rightarrow> course_module \<Rightarrow> int \<Rightarrow> bool \<Rightarrow> (pool_call list, unit list) task" where
  "prefetchContent sv this module courseId single =
     downloadOrPrefetch sv this module courseId True None"

subsection \<open>Example inputs\<close>

text \<open>
  Stand-ins for the injected services, to run the methods on concrete inputs: the HTML
  \<open><img src=i.png>\<close> holds one file, the time of a list is the latest of its entries,
  its revision is the number of its entries, no download of \<open>b\<close> is under way, and the
  file pool has no event name for \<open>x\<close>.
\<close>

definition example_services :: services where
  "example_services =
     \<lparr>getId = ''site1'',
      canDownloadFiles = True,
      extractDownloadableFilesFromHtmlAsFakeFileObjects =
        (\<lambda>html. if html = ''<img src=i.png>''
                then [\<lparr>ftype = None, fileurl = Some ''i.png'', timemodified = None\<rparr>]
                else []),
      sumFileSizes = (\<lambda>files. (int (length files), True)),
      getTimemodifiedFromFileList =
        (\<lambda>files. foldr (\<lambda>f t. max (case timemodified f of None \<Rightarrow> 0 | Some x \<Rightarrow> x) t) files 0),
      getRevisionFromFileList = (\<lambda>files. int (length files)),
      isFileDownloadingByUrl =
        (\<lambda>siteId url. if url = Some ''b'' then Rejected ''not downloading'' else Resolved ()),
      getFileEventNameByUrl =
        (\<lambda>siteId url. if url = Some ''x'' then Rejected ''no such file''
                      else Resolved (''event_'' @ (case url of None \<Rightarrow> [] | Some u \<Rightarrow> u))),
      getFilesSizeByComponent = (\<lambda>siteId component itemId. Resolved 0),
      pool_outcome = (\<lambda>c. Resolved ())\<rparr>"

definition content_file :: "string \<Rightarrow> string \<Rightarrow> int \<Rightarrow> file_entry" where
  "content_file t url tm = \<lparr>ftype = Some t, fileurl = Some url, timemodified = Some tm\<rparr>"

text \<open>The module of the specification's scenario, and the same module with a
  description.\<close>

definition scenario_module :: course_module where
  "scenario_module =
     \<lparr>module_id = 7,
      contents = [content_file ''file'' ''a'' 100, content_file ''url'' ''b'' 50],
      description = None\<rparr>"

definition described_module :: course_module where
  "described_module = scenario_module\<lparr>description := Some ''<img src=i.png>''\<rparr>"

definition three_files_module :: course_module where
  "three_files_module =
     \<lparr>module_id = 3,
      contents = [content_file ''file'' ''a'' 1, content_file ''file'' ''b'' 2,
                  content_file ''url'' ''u'' 3, content_file ''file'' ''c'' 4],
      description = None\<rparr>"

definition unnamed_file_module :: course_module where
  "unnamed_file_module =
     \<lparr>module_id = 4,
      contents = [content_file ''file'' ''a'' 1, content_file ''file'' ''x'' 2,
                  content_file ''file'' ''c'' 3],
      description = None\<rparr>"

section \<open>Properties\<close>

subsection \<open>Loops and promises\<close>

lemma foldl_push_filter:
  "foldl (\<lambda>files content. if P content then files @ [content] else files) acc xs
     = acc @ filter P xs"
  by (induction xs arbitrary: acc) simp_all

lemma foldl_push_map_filter:
  "foldl (\<lambda>promises content. if \<not> P content then promises else promises @ [f content]) acc xs
     = acc @ map f (filter P xs)"
  by (induction xs arbitrary: acc) simp_all

lemma getContentDownloadableFiles_filter:
  "getContentDownloadableFiles m = filter isFileDownloadable (contents m)"
  by (simp add: getContentDownloadableFiles_def foldl_push_filter)

lemma q_all_resolved: "q_all (map (\<lambda>_. Resolved v) xs) = Resolved (map (\<lambda>_. v) xs)"
  by (induction xs) (simp_all add: q_then_def)

text \<open>The template's \<^verbatim>\<open>getIntroFiles\<close> never rejects: it resolves with the files of the
  description, or with no file.\<close>

lemma getIntroFiles_resolved:
  "getIntroFiles sv m courseId =
     Resolved (if truthy (description m)
               then extractDownloadableFilesFromHtmlAsFakeFileObjects sv (the (description m))
               else [])"
  by (simp add: getIntroFiles_def getIntroFilesFromInstance_def q_when_def)

lemma getRevisionAndTimemodified_Some:
  "getRevisionAndTimemodified sv m courseId (Some fs) =
     Resolved \<lparr>timemod = getTimemodifiedFromFileList sv (fs @ contents m),
               revision = getRevisionFromFileList sv (fs @ contents m)\<rparr>"
  by (simp add: getRevisionAndTimemodified_def q_when_def q_then_def Let_def)

lemma getRevisionAndTimemodified_None:
  "getIntroFiles sv m courseId = Resolved fs \<Longrightarrow>
   getRevisionAndTimemodified sv m courseId None =
     Resolved \<lparr>timemod = getTimemodifiedFromFileList sv (fs @ contents m),
               revision = getRevisionFromFileList sv (fs @ contents m)\<rparr>"
  by (simp add: getRevisionAndTimemodified_def q_then_def Let_def)

subsection \<open>Downloadable files\<close>

text \<open>
  C9: a file is downloadable exactly when its type is \<open>file\<close>, and
  \<^verbatim>\<open>getContentDownloadableFiles\<close> returns the entries of \<^verbatim>\<open>module.contents\<close> that are
  downloadable, in their order in \<^verbatim>\<open>module.contents\<close>.
\<close>

theorem isFileDownloadable_getContentDownloadableFiles:
  "(isFileDownloadable f \<longleftrightarrow> ftype f = Some ''file'')
   \<and> getContentDownloadableFiles m = filter isFileDownloadable (contents m)"
  by (simp add: isFileDownloadable_def getContentDownloadableFiles_filter)

theorem getContentDownloadableFiles_three_files:
  "isFileDownloadable (content_file ''file'' ''a'' 1)
   \<and> getContentDownloadableFiles three_files_module =
     [content_file ''file'' ''a'' 1, content_file ''file'' ''b'' 2, content_file ''file'' ''c'' 4]"
  using isFileDownloadable_getContentDownloadableFiles
    [of "content_file ''file'' ''a'' 1" three_files_module]
  by (simp add: three_files_module_def content_file_def isFileDownloadable_def)

text \<open>
  C8: \<^verbatim>\<open>isDownloadable\<close> resolves with false for a module with no contents and with true
  for a module with contents, whatever their types.
\<close>

theorem isDownloadable_iff_contents:
  "(contents m = [] \<longrightarrow> isDownloadable m courseId = Resolved False)
   \<and> (contents m \<noteq> [] \<longrightarrow> isDownloadable m courseId = Resolved True)"
  by (simp add: isDownloadable_def q_when_def)

theorem isDownloadable_examples:
  "isDownloadable \<lparr>module_id = 1, contents = [], description = None\<rparr> 5 = Resolved False
   \<and> isDownloadable
        \<lparr>module_id = 1, contents = [content_file ''url'' ''b'' 50], description = None\<rparr> 5
       = Resolved True"
  using isDownloadable_iff_contents [of "\<lparr>module_id = 1, contents = [], description = None\<rparr>" 5]
    isDownloadable_iff_contents
      [of "\<lparr>module_id = 1, contents = [content_file ''url'' ''b'' 50], description = None\<rparr>" 5]
  by simp

subsection \<open>The files of a module and their fingerprint\<close>

text \<open>
  C6: \<^verbatim>\<open>getFiles\<close> resolves with the intro files \<^verbatim>\<open>getIntroFiles\<close> resolves with,
  followed by the downloadable content files; nothing is removed, so a URL that occurs
  twice stays twice.
\<close>

theorem getFiles_concat:
  "\<exists>introFiles.
     getIntroFiles sv m courseId = Resolved introFiles
     \<and> getFiles sv m courseId = Resolved (introFiles @ getContentDownloadableFiles m)"
  by (simp add: getFiles_def getIntroFiles_resolved q_then_def)

theorem getFiles_keeps_duplicates:
  "getFiles example_services
     \<lparr>module_id = 9,
      contents = [content_file ''file'' ''i.png'' 1, content_file ''url'' ''i.png'' 2,
                  content_file ''file'' ''i.png'' 1],
      description = Some ''<img src=i.png>''\<rparr> 1 =
   Resolved [\<lparr>ftype = None, fileurl = Some ''i.png'', timemodified = None\<rparr>,
             content_file ''file'' ''i.png'' 1, content_file ''file'' ''i.png'' 1]"
  using getFiles_concat [of example_services
     "\<lparr>module_id = 9,
      contents = [content_file ''file'' ''i.png'' 1, content_file ''url'' ''i.png'' 2,
                  content_file ''file'' ''i.png'' 1],
      description = Some ''<img src=i.png>''\<rparr>" 1]
  by (auto simp add: getIntroFiles_resolved getContentDownloadableFiles_filter
      isFileDownloadable_def example_services_def content_file_def truthy_def)

text \<open>
  C1: \<^verbatim>\<open>getRevisionAndTimemodified\<close> takes the intro files (the argument when it is
  given, what \<^verbatim>\<open>getIntroFiles\<close> resolves with otherwise), appends all of
  \<^verbatim>\<open>module.contents\<close>, downloadable or not, and resolves with the time and the revision
  the file pool derives from that list.
\<close>

theorem getRevisionAndTimemodified_all_contents:
  "\<exists>files.
     (case introFiles of Some fs \<Rightarrow> Resolved fs | None \<Rightarrow> getIntroFiles sv m courseId)
       = Resolved files
     \<and> getRevisionAndTimemodified sv m courseId introFiles =
         Resolved \<lparr>timemod = getTimemodifiedFromFileList sv (files @ contents m),
                   revision = getRevisionFromFileList sv (files @ contents m)\<rparr>"
proof (cases introFiles)
  case None
  obtain fs where fs: "getIntroFiles sv m courseId = Resolved fs"
    by (simp add: getIntroFiles_resolved)
  with None show ?thesis
    by (simp add: getRevisionAndTimemodified_None)
next
  case (Some fs)
  then show ?thesis
    by (simp add: getRevisionAndTimemodified_Some)
qed

text \<open>On the scenario's module both entries count: the revision of the example services
  is the number of entries.\<close>

theorem getRevisionAndTimemodified_scenario:
  "getRevisionAndTimemodified example_services scenario_module 1 None =
     Resolved \<lparr>timemod = 100, revision = 2\<rparr>
   \<and> getRevisionAndTimemodified example_services described_module 1 None =
     Resolved \<lparr>timemod = 100, revision = 3\<rparr>"
  using getRevisionAndTimemodified_all_contents
      [where introFiles = None and sv = example_services and m = scenario_module and courseId = 1]
    getRevisionAndTimemodified_all_contents
      [where introFiles = None and sv = example_services and m = described_module and courseId = 1]
  by (auto simp add: getIntroFiles_resolved example_services_def scenario_module_def
      described_module_def content_file_def truthy_def)

text \<open>
  C7: the fingerprint is the same whether the intro files are passed or left out, when
  the list passed is the one \<^verbatim>\<open>getIntroFiles\<close> resolves with.
\<close>

theorem getRevisionAndTimemodified_introFiles_invariant:
  assumes "getIntroFiles sv m courseId = Resolved fs"
  shows "getRevisionAndTimemodified sv m courseId (Some fs) =
         getRevisionAndTimemodified sv m courseId None"
  using assms by (simp add: getRevisionAndTimemodified_Some getRevisionAndTimemodified_None)

theorem getRevisionAndTimemodified_introFiles_invariant_described:
  "getIntroFiles example_services described_module 1 =
     Resolved [\<lparr>ftype = None, fileurl = Some ''i.png'', timemodified = None\<rparr>]
   \<and> getRevisionAndTimemodified example_services described_module 1
         (Some [\<lparr>ftype = None, fileurl = Some ''i.png'', timemodified = None\<rparr>]) =
       getRevisionAndTimemodified example_services described_module 1 None"
proof -
  have h: "getIntroFiles example_services described_module 1 =
     Resolved [\<lparr>ftype = None, fileurl = Some ''i.png'', timemodified = None\<rparr>]"
    by (simp add: getIntroFiles_resolved example_services_def scenario_module_def
      described_module_def truthy_def)
  show ?thesis
    using h getRevisionAndTimemodified_introFiles_invariant [OF h] by simp
qed

subsection \<open>Intro files\<close>

text \<open>
  C2: the intro files of a module are, in this order of priority: the \<^verbatim>\<open>introfiles\<close> of
  the instance when an instance is given and has them, returned as they are whatever
  \<^verbatim>\<open>intro\<close> and \<^verbatim>\<open>module.description\<close> hold; else the files extracted from the
  instance's \<^verbatim>\<open>intro\<close> when it is not empty; else the files extracted from
  \<^verbatim>\<open>module.description\<close> when it is not empty (this branch alone hands them over in a
  resolved promise); else no file. \<^verbatim>\<open>getIntroFiles\<close> is the case of no instance, passed
  through \<^verbatim>\<open>$q.when\<close>.
\<close>

theorem getIntroFilesFromInstance_priority:
  "(introfiles i = Some fs \<longrightarrow> getIntroFilesFromInstance sv m (Some i) = Plain fs)
   \<and> (introfiles i = None \<and> intro i = Some html \<and> html \<noteq> [] \<longrightarrow>
        getIntroFilesFromInstance sv m (Some i) =
          Plain (extractDownloadableFilesFromHtmlAsFakeFileObjects sv html))
   \<and> (introfiles i = None \<and> \<not> truthy (intro i) \<longrightarrow>
        getIntroFilesFromInstance sv m (Some i) = getIntroFilesFromInstance sv m None)
   \<and> (description m = Some d \<and> d \<noteq> [] \<longrightarrow>
        getIntroFilesFromInstance sv m None =
          Promise (Resolved (extractDownloadableFilesFromHtmlAsFakeFileObjects sv d)))
   \<and> (\<not> truthy (description m) \<longrightarrow> getIntroFilesFromInstance sv m None = Plain [])
   \<and> getIntroFiles sv m courseId = q_when (getIntroFilesFromInstance sv m None)"
  by (simp add: getIntroFilesFromInstance_def getIntroFiles_def truthy_def q_when_def)

theorem getIntroFilesFromInstance_examples:
  "getIntroFilesFromInstance example_services described_module
     (Some \<lparr>introfiles = Some [content_file ''file'' ''f'' 1], intro = Some ''<img src=i.png>''\<rparr>)
     = Plain [content_file ''file'' ''f'' 1]
   \<and> getIntroFilesFromInstance example_services scenario_module
     (Some \<lparr>introfiles = None, intro = Some ''<img src=i.png>''\<rparr>)
     = Plain [\<lparr>ftype = None, fileurl = Some ''i.png'', timemodified = None\<rparr>]
   \<and> getIntroFilesFromInstance example_services described_module
     (Some \<lparr>introfiles = None, intro = Some []\<rparr>)
     = Promise (Resolved [\<lparr>ftype = None, fileurl = Some ''i.png'', timemodified = None\<rparr>])
   \<and> getIntroFilesFromInstance example_services scenario_module None = Plain []
   \<and> getIntroFiles example_services described_module 1
     = Resolved [\<lparr>ftype = None, fileurl = Some ''i.png'', timemodified = None\<rparr>]"
proof -
  note p = getIntroFilesFromInstance_priority [where sv = example_services and courseId = 1]
  have explicit: "getIntroFilesFromInstance example_services described_module
     (Some \<lparr>introfiles = Some [content_file ''file'' ''f'' 1], intro = Some ''<img src=i.png>''\<rparr>)
     = Plain [content_file ''file'' ''f'' 1]"
    using p [where m = described_module and fs = "[content_file ''file'' ''f'' 1]"
        and i = "\<lparr>introfiles = Some [content_file ''file'' ''f'' 1],
                  intro = Some ''<img src=i.png>''\<rparr>", THEN conjunct1]
    by simp
  have from_intro: "getIntroFilesFromInstance example_services scenario_module
     (Some \<lparr>introfiles = None, intro = Some ''<img src=i.png>''\<rparr>)
     = Plain [\<lparr>ftype = None, fileurl = Some ''i.png'', timemodified = None\<rparr>]"
    using p [where m = scenario_module and html = "''<img src=i.png>''"
        and i = "\<lparr>introfiles = None, intro = Some ''<img src=i.png>''\<rparr>",
        THEN conjunct2, THEN conjunct1]
    by (simp add: example_services_def)
  have from_description: "getIntroFilesFromInstance example_services described_module None
     = Promise (Resolved [\<lparr>ftype = None, fileurl = Some ''i.png'', timemodified = None\<rparr>])"
    using p [where m = described_module and d = "''<img src=i.png>''",
        THEN conjunct2, THEN conjunct2, THEN conjunct2, THEN conjunct1]
    by (simp add: example_services_def described_module_def scenario_module_def)
  have falls_through: "getIntroFilesFromInstance example_services described_module
     (Some \<lparr>introfiles = None, intro = Some []\<rparr>)
     = getIntroFilesFromInstance example_services described_module None"
    using p [where m = described_module and i = "\<lparr>introfiles = None, intro = Some []\<rparr>",
        THEN conjunct2, THEN conjunct2, THEN conjunct1]
    by (simp add: truthy_def)
  have none: "getIntroFilesFromInstance example_services scenario_module None = Plain []"
    using p [where m = scenario_module,
        THEN conjunct2, THEN conjunct2, THEN conjunct2, THEN conjunct2, THEN conjunct1]
    by (simp add: truthy_def scenario_module_def)
  have wrapped: "getIntroFiles example_services described_module 1
     = q_when (getIntroFilesFromInstance example_services described_module None)"
    using p [where m = described_module,
        THEN conjunct2, THEN conjunct2, THEN conjunct2, THEN conjunct2, THEN conjunct2] .
  show ?thesis
    by (simp only: explicit from_intro falls_through from_description none wrapped q_when_def
        value_or_promise.case simp_thms)
qed

subsection \<open>Event names of the files being downloaded\<close>

lemma pushEventName_eq:
  "pushEventName sv c names =
     (Resolved (),
      names @ (case isFileDownloadingByUrl sv (getId sv) (fileurl c) of
                 Rejected _ \<Rightarrow> []
               | Resolved _ \<Rightarrow>
                   (case getFileEventNameByUrl sv (getId sv) (fileurl c) of
                      Rejected _ \<Rightarrow> []
                    | Resolved n \<Rightarrow> [n])))"
  by (simp add: pushEventName_def catch_task_def then_task_def Let_def split: promise.splits)

lemma run_tasks_pushEventName:
  "run_tasks (map (pushEventName sv) cs) names =
     (map (\<lambda>_. Resolved ()) cs,
      names @ concat (map (\<lambda>c. case isFileDownloadingByUrl sv (getId sv) (fileurl c) of
                 Rejected _ \<Rightarrow> []
               | Resolved _ \<Rightarrow>
                   (case getFileEventNameByUrl sv (getId sv) (fileurl c) of
                      Rejected _ \<Rightarrow> []
                    | Resolved n \<Rightarrow> [n])) cs))"
  by (induction cs arbitrary: names) (simp_all add: pushEventName_eq)

lemma order_in_range:
  assumes "mset order = mset [0..<n]" and "i \<in> set order"
  shows "i < n"
proof -
  from assms(1) have "set order = set [0..<n]" by (rule mset_eq_setD)
  with assms(2) show ?thesis by simp
qed

lemma map_nth_map:
  assumes "\<forall>i \<in> set order. i < length xs"
  shows "map (\<lambda>i. map f xs ! i) order = map f (map (\<lambda>i. xs ! i) order)"
  using assms by (induction order) simp_all

lemma mset_completion_order:
  assumes "mset order = mset [0..<length xs]"
  shows "mset (map (\<lambda>i. xs ! i) order) = mset xs"
proof -
  have "mset (map (\<lambda>i. xs ! i) order) = image_mset (\<lambda>i. xs ! i) (mset order)" by simp
  also have "\<dots> = image_mset (\<lambda>i. xs ! i) (mset [0..<length xs])" by (simp only: assms)
  also have "\<dots> = mset (map (\<lambda>i. xs ! i) [0..<length xs])" by simp
  also have "\<dots> = mset xs" by (simp only: map_nth)
  finally show ?thesis .
qed

lemma mset_concat_map_cong:
  assumes "mset xs = mset ys"
  shows "mset (concat (map f xs)) = mset (concat (map f ys))"
proof -
  have "\<And>zs. mset (concat (map f zs)) = (\<Sum>z\<in>#mset zs. mset (f z))"
    by (induct_tac zs) simp_all
  with assms show ?thesis by simp
qed

text \<open>
  Whatever the order in which the chains complete, the method resolves, with the names
  of the files whose two calls resolved, in the order of completion.
\<close>

lemma getDownloadingFilesEventNames_eq:
  assumes "mset order = mset [0..<length (getContentDownloadableFiles m)]"
  shows "getDownloadingFilesEventNames sv order m =
     Resolved (concat (map (\<lambda>c. case isFileDownloadingByUrl sv (getId sv) (fileurl c) of
                 Rejected _ \<Rightarrow> []
               | Resolved _ \<Rightarrow>
                   (case getFileEventNameByUrl sv (getId sv) (fileurl c) of
                      Rejected _ \<Rightarrow> []
                    | Resolved n \<Rightarrow> [n]))
         (map (\<lambda>i. getContentDownloadableFiles m ! i) order)))"
proof -
  let ?dl = "getContentDownloadableFiles m"
  have in_range: "\<forall>i \<in> set order. i < length ?dl"
    using assms by (blast intro: order_in_range)
  have promises: "foldl (\<lambda>promises content.
                     if \<not> isFileDownloadable content then promises
                     else promises @ [pushEventName sv content])
              [] (contents m) = map (pushEventName sv) ?dl"
    by (simp add: foldl_push_map_filter getContentDownloadableFiles_filter)
  have run: "run_tasks (map (\<lambda>i. map (pushEventName sv) ?dl ! i) order) [] =
      (map (\<lambda>_. Resolved ()) (map (\<lambda>i. ?dl ! i) order),
       [] @ concat (map (\<lambda>c. case isFileDownloadingByUrl sv (getId sv) (fileurl c) of
                 Rejected _ \<Rightarrow> []
               | Resolved _ \<Rightarrow>
                   (case getFileEventNameByUrl sv (getId sv) (fileurl c) of
                      Rejected _ \<Rightarrow> []
                    | Resolved n \<Rightarrow> [n])) (map (\<lambda>i. ?dl ! i) order)))"
    by (simp only: map_nth_map [OF in_range] run_tasks_pushEventName)
  show ?thesis
    unfolding getDownloadingFilesEventNames_def promises Let_def run
    by (simp only: prod.case q_all_resolved q_then_def promise.case append_Nil)
qed

lemma names_of_checked:
  assumes "\<forall>c \<in> set cs. isFileDownloadingByUrl sv (getId sv) (fileurl c) = Resolved () \<longrightarrow>
             getFileEventNameByUrl sv (getId sv) (fileurl c) = Resolved (name c)"
  shows "concat (map (\<lambda>c. case isFileDownloadingByUrl sv (getId sv) (fileurl c) of
                 Rejected _ \<Rightarrow> []
               | Resolved _ \<Rightarrow>
                   (case getFileEventNameByUrl sv (getId sv) (fileurl c) of
                      Rejected _ \<Rightarrow> []
                    | Resolved n \<Rightarrow> [n])) cs)
         = map name (filter (\<lambda>c. isFileDownloadingByUrl sv (getId sv) (fileurl c) = Resolved ()) cs)"
  using assms by (induction cs) (auto split: promise.splits)

lemma three_files:
  "getContentDownloadableFiles three_files_module =
     [content_file ''file'' ''a'' 1, content_file ''file'' ''b'' 2, content_file ''file'' ''c'' 4]"
  by (simp add: getContentDownloadableFiles_filter three_files_module_def content_file_def
      isFileDownloadable_def)

lemma unnamed_files:
  "getContentDownloadableFiles unnamed_file_module =
     [content_file ''file'' ''a'' 1, content_file ''file'' ''x'' 2, content_file ''file'' ''c'' 3]"
  by (simp add: getContentDownloadableFiles_filter unnamed_file_module_def content_file_def
      isFileDownloadable_def)

text \<open>
  C4: a file whose check \<^verbatim>\<open>isFileDownloadingByUrl\<close> is rejected is skipped and no error
  comes out: when the file pool has an event name (\<open>name c\<close>) for every downloadable file
  whose check resolves, \<^verbatim>\<open>getDownloadingFilesEventNames\<close> resolves with the names of
  exactly these files, in the order in which their chains complete; as a multiset they
  are the names of the downloadable entries of \<^verbatim>\<open>module.contents\<close> whose check resolves.
\<close>

theorem getDownloadingFilesEventNames_skips_failed_checks:
  assumes order: "mset order = mset [0..<length (getContentDownloadableFiles m)]"
    and names: "\<forall>c \<in> set (contents m).
             isFileDownloadable c \<and> isFileDownloadingByUrl sv (getId sv) (fileurl c) = Resolved ()
             \<longrightarrow> getFileEventNameByUrl sv (getId sv) (fileurl c) = Resolved (name c)"
  shows "getDownloadingFilesEventNames sv order m =
           Resolved (map name
             (filter (\<lambda>c. isFileDownloadingByUrl sv (getId sv) (fileurl c) = Resolved ())
                (map (\<lambda>i. getContentDownloadableFiles m ! i) order)))
         \<and> mset (map name
             (filter (\<lambda>c. isFileDownloadingByUrl sv (getId sv) (fileurl c) = Resolved ())
                (map (\<lambda>i. getContentDownloadableFiles m ! i) order)))
           = mset (map name
               (filter (\<lambda>c. isFileDownloadable c
                            \<and> isFileDownloadingByUrl sv (getId sv) (fileurl c) = Resolved ())
                  (contents m)))"
proof
  let ?dl = "getContentDownloadableFiles m"
  let ?done = "map (\<lambda>i. ?dl ! i) order"
  let ?ok = "\<lambda>c. isFileDownloadingByUrl sv (getId sv) (fileurl c) = Resolved ()"
  have perm: "mset ?done = mset ?dl"
    using order by (rule mset_completion_order)
  then have "set ?done = set ?dl"
    by (rule mset_eq_setD)
  then have "\<forall>c \<in> set ?done. ?ok c \<longrightarrow>
      getFileEventNameByUrl sv (getId sv) (fileurl c) = Resolved (name c)"
    using names by (simp add: getContentDownloadableFiles_filter)
  then show "getDownloadingFilesEventNames sv order m = Resolved (map name (filter ?ok ?done))"
    by (simp only: getDownloadingFilesEventNames_eq [OF order] names_of_checked)
  have "mset (map name (filter ?ok ?done)) = image_mset name (filter_mset ?ok (mset ?done))"
    by simp
  also have "\<dots> = image_mset name (filter_mset ?ok (mset ?dl))"
    by (simp only: perm)
  also have "\<dots> = mset (map name (filter ?ok ?dl))"
    by simp
  also have "filter ?ok ?dl = filter (\<lambda>c. isFileDownloadable c \<and> ?ok c) (contents m)"
    by (simp add: getContentDownloadableFiles_filter)
  finally show "mset (map name (filter ?ok ?done)) =
      mset (map name (filter (\<lambda>c. isFileDownloadable c \<and> ?ok c) (contents m)))" .
qed

text \<open>Three downloadable files, no download of the second under way, the third chain
  completing first: the names of the other two.\<close>

theorem getDownloadingFilesEventNames_one_of_three_fails:
  "getDownloadingFilesEventNames example_services [2, 0, 1] three_files_module =
     Resolved [''event_c'', ''event_a'']"
proof -
  have order: "mset [2, 0, 1] = mset [0..<length (getContentDownloadableFiles three_files_module)]"
    by (simp add: three_files upt_rec)
  have names: "\<forall>c \<in> set (contents three_files_module).
             isFileDownloadable c
             \<and> isFileDownloadingByUrl example_services (getId example_services) (fileurl c)
                 = Resolved ()
             \<longrightarrow> getFileEventNameByUrl example_services (getId example_services) (fileurl c)
                 = Resolved (''event_'' @ the (fileurl c))"
    by (simp add: three_files_module_def content_file_def example_services_def)
  show ?thesis
    using getDownloadingFilesEventNames_skips_failed_checks [OF order names, THEN conjunct1]
    by (simp add: three_files content_file_def example_services_def)
qed

text \<open>
  C10: the \<^verbatim>\<open>catch\<close> closes the whole chain, so a rejected \<^verbatim>\<open>getFileEventNameByUrl\<close>
  is swallowed like a rejected check. The chain of a file always resolves, and appends
  the file's event name when both calls resolve and nothing otherwise;
  \<^verbatim>\<open>getDownloadingFilesEventNames\<close> always resolves, with what the chains appended in
  the order of their completion, and as a multiset these names do not depend on that
  order.
\<close>

theorem getDownloadingFilesEventNames_swallows_every_failure:
  assumes order: "mset order = mset [0..<length (getContentDownloadableFiles m)]"
  shows "(\<forall>c names. pushEventName sv c names =
            (Resolved (),
             names @ (case isFileDownloadingByUrl sv (getId sv) (fileurl c) of
                        Rejected _ \<Rightarrow> []
                      | Resolved _ \<Rightarrow>
                          (case getFileEventNameByUrl sv (getId sv) (fileurl c) of
                             Rejected _ \<Rightarrow> []
                           | Resolved n \<Rightarrow> [n]))))
         \<and> getDownloadingFilesEventNames sv order m =
             Resolved (concat (map (\<lambda>c. snd (pushEventName sv c []))
                                 (map (\<lambda>i. getContentDownloadableFiles m ! i) order)))
         \<and> mset (concat (map (\<lambda>c. snd (pushEventName sv c []))
                           (map (\<lambda>i. getContentDownloadableFiles m ! i) order)))
           = mset (concat (map (\<lambda>c. snd (pushEventName sv c []))
                             (filter isFileDownloadable (contents m))))"
proof (intro conjI allI)
  fix c names
  show "pushEventName sv c names =
            (Resolved (),
             names @ (case isFileDownloadingByUrl sv (getId sv) (fileurl c) of
                        Rejected _ \<Rightarrow> []
                      | Resolved _ \<Rightarrow>
                          (case getFileEventNameByUrl sv (getId sv) (fileurl c) of
                             Rejected _ \<Rightarrow> []
                           | Resolved n \<Rightarrow> [n])))"
    by (rule pushEventName_eq)
next
  show "getDownloadingFilesEventNames sv order m =
             Resolved (concat (map (\<lambda>c. snd (pushEventName sv c []))
                                 (map (\<lambda>i. getContentDownloadableFiles m ! i) order)))"
    by (simp only: getDownloadingFilesEventNames_eq [OF order] pushEventName_eq snd_conv
        append_Nil)
next
  have "mset (map (\<lambda>i. getContentDownloadableFiles m ! i) order)
      = mset (filter isFileDownloadable (contents m))"
    using mset_completion_order [OF order] by (simp only: getContentDownloadableFiles_filter)
  then show "mset (concat (map (\<lambda>c. snd (pushEventName sv c []))
                           (map (\<lambda>i. getContentDownloadableFiles m ! i) order)))
           = mset (concat (map (\<lambda>c. snd (pushEventName sv c []))
                             (filter isFileDownloadable (contents m))))"
    by (rule mset_concat_map_cong)
qed

text \<open>Three files with a download under way, no event name for the second, the first
  chain completing last.\<close>

theorem getDownloadingFilesEventNames_lookup_fails:
  "isFileDownloadingByUrl example_services (getId example_services) (Some ''x'') = Resolved ()
   \<and> getFileEventNameByUrl example_services (getId example_services) (Some ''x'')
       = Rejected ''no such file''
   \<and> getDownloadingFilesEventNames example_services [1, 2, 0] unnamed_file_module =
       Resolved [''event_c'', ''event_a'']"
proof -
  have order: "mset [1, 2, 0] = mset [0..<length (getContentDownloadableFiles unnamed_file_module)]"
    by (simp add: unnamed_files upt_rec)
  note t = getDownloadingFilesEventNames_swallows_every_failure
      [OF order, where sv = example_services]
  have chain: "snd (pushEventName example_services c []) =
      (case isFileDownloadingByUrl example_services (getId example_services) (fileurl c) of
         Rejected _ \<Rightarrow> []
       | Resolved _ \<Rightarrow>
           (case getFileEventNameByUrl example_services (getId example_services) (fileurl c) of
              Rejected _ \<Rightarrow> []
            | Resolved n \<Rightarrow> [n]))" for c
    by (simp only: t [THEN conjunct1, rule_format] snd_conv append_Nil)
  have "getDownloadingFilesEventNames example_services [1, 2, 0] unnamed_file_module =
      Resolved (concat (map
        (\<lambda>c. case isFileDownloadingByUrl example_services (getId example_services) (fileurl c) of
                Rejected _ \<Rightarrow> []
              | Resolved _ \<Rightarrow>
                  (case getFileEventNameByUrl example_services (getId example_services)
                          (fileurl c) of
                     Rejected _ \<Rightarrow> []
                   | Resolved n \<Rightarrow> [n]))
        (map (\<lambda>i. getContentDownloadableFiles unnamed_file_module ! i) [1, 2, 0])))"
    using t [THEN conjunct2, THEN conjunct1] by (simp only: chain)
  then show ?thesis
    by (simp add: unnamed_files content_file_def example_services_def)
qed

subsection \<open>Downloading and prefetching\<close>

lemma foldl_pool_calls:
  "foldl (\<lambda>(promises, calls) file. (promises @ [pool_outcome sv (mk file)], calls @ [mk file]))
     (ps, cs) fs
   = (ps @ map (\<lambda>file. pool_outcome sv (mk file)) fs, cs @ map mk fs)"
  by (induction fs arbitrary: ps cs) simp_all

lemma downloadOrPrefetch_no_dirPath:
  assumes "\<not> truthy dirPath"
    and "getIntroFiles sv m courseId = Resolved introFiles"
  shows "downloadOrPrefetch sv this m courseId prefetch dirPath calls =
     (q_all [pool_outcome sv
               ((if prefetch then PrefetchPackage else DownloadPackage) (getId sv)
                  (introFiles @ getContentDownloadableFiles m)
                  (get_prop this ''component'') (module_id m)
                  (getRevisionFromFileList sv (introFiles @ contents m))
                  (getTimemodifiedFromFileList sv (introFiles @ contents m)) None)],
      calls @ [(if prefetch then PrefetchPackage else DownloadPackage) (getId sv)
                  (introFiles @ getContentDownloadableFiles m)
                  (get_prop this ''component'') (module_id m)
                  (getRevisionFromFileList sv (introFiles @ contents m))
                  (getTimemodifiedFromFileList sv (introFiles @ contents m)) None])"
  using assms
  by (simp add: downloadOrPrefetch_def getRevisionAndTimemodified_Some
      then_task_def pool_def Let_def)

lemma downloadOrPrefetch_dirPath:
  assumes "truthy dirPath"
    and "getIntroFiles sv m courseId = Resolved introFiles"
  shows "snd (downloadOrPrefetch sv this m courseId prefetch dirPath calls) =
     calls
     @ map (\<lambda>file. if prefetch
                   then AddToQueueByUrl (getId sv) (fileurl file) (get_prop this ''component'')
                          (module_id m) (timemodified file)
                   else DownloadUrl (getId sv) (fileurl file) False (get_prop this ''component'')
                          (module_id m) (timemodified file)) introFiles
     @ [(if prefetch then PrefetchPackage else DownloadPackage) (getId sv)
                (getContentDownloadableFiles m)
                (get_prop this ''component'') (module_id m)
                (getRevisionFromFileList sv (introFiles @ contents m))
                (getTimemodifiedFromFileList sv (introFiles @ contents m)) dirPath]"
proof (cases prefetch)
  case True
  with assms show ?thesis
    by (simp add: downloadOrPrefetch_def getRevisionAndTimemodified_Some
      then_task_def Let_def foldl_pool_calls pool_def)
next
  case False
  with assms show ?thesis
    by (simp add: downloadOrPrefetch_def getRevisionAndTimemodified_Some
      then_task_def Let_def foldl_pool_calls pool_def)
qed

lemma described_intro:
  "getIntroFiles example_services described_module 1 =
     Resolved [\<lparr>ftype = None, fileurl = Some ''i.png'', timemodified = None\<rparr>]"
  by (simp add: getIntroFiles_resolved example_services_def scenario_module_def
      described_module_def truthy_def)

lemma described_content:
  "getContentDownloadableFiles described_module = [content_file ''file'' ''a'' 100]"
  by (simp add: getContentDownloadableFiles_filter described_module_def scenario_module_def
      content_file_def isFileDownloadable_def)

text \<open>
  C3, as the source has it: \<^verbatim>\<open>download\<close> resolves the intro files, computes the
  fingerprint with them and makes one call of the file pool, \<^verbatim>\<open>downloadPackage\<close>, for the
  intro files followed by the downloadable content files, under \<^verbatim>\<open>this.component\<close> and
  \<^verbatim>\<open>module.id\<close>, with the revision and the time of the fingerprint and no directory;
  \<^verbatim>\<open>prefetchContent\<close> makes the same single call of \<^verbatim>\<open>prefetchPackage\<close>. One call for
  each intro file (\<^verbatim>\<open>downloadUrl\<close>, or \<^verbatim>\<open>addToQueueByUrl\<close> when prefetching) followed by
  one package call for the content files alone is what \<^verbatim>\<open>downloadOrPrefetch\<close> makes when
  it is given a directory, which neither \<^verbatim>\<open>download\<close> nor \<^verbatim>\<open>prefetchContent\<close> does.
\<close>

theorem download_single_package:
  "\<exists>introFiles data.
     getIntroFiles sv m courseId = Resolved introFiles
     \<and> getRevisionAndTimemodified sv m courseId (Some introFiles) = Resolved data
     \<and> snd (download sv this m courseId calls) =
         calls @ [DownloadPackage (getId sv) (introFiles @ getContentDownloadableFiles m)
                    (get_prop this ''component'') (module_id m)
                    (revision data) (timemod data) None]
     \<and> snd (prefetchContent sv this m courseId single calls) =
         calls @ [PrefetchPackage (getId sv) (introFiles @ getContentDownloadableFiles m)
                    (get_prop this ''component'') (module_id m)
                    (revision data) (timemod data) None]
     \<and> (truthy dirPath \<longrightarrow>
          snd (downloadOrPrefetch sv this m courseId False dirPath calls) =
            calls
            @ map (\<lambda>file. DownloadUrl (getId sv) (fileurl file) False
                            (get_prop this ''component'') (module_id m) (timemodified file))
                introFiles
            @ [DownloadPackage (getId sv) (getContentDownloadableFiles m)
                 (get_prop this ''component'') (module_id m)
                 (revision data) (timemod data) dirPath]
          \<and> snd (downloadOrPrefetch sv this m courseId True dirPath calls) =
            calls
            @ map (\<lambda>file. AddToQueueByUrl (getId sv) (fileurl file)
                            (get_prop this ''component'') (module_id m) (timemodified file))
                introFiles
            @ [PrefetchPackage (getId sv) (getContentDownloadableFiles m)
                 (get_prop this ''component'') (module_id m)
                 (revision data) (timemod data) dirPath])"
proof -
  obtain introFiles where intro: "getIntroFiles sv m courseId = Resolved introFiles"
    by (simp add: getIntroFiles_resolved)
  let ?data = "\<lparr>timemod = getTimemodifiedFromFileList sv (introFiles @ contents m),
                 revision = getRevisionFromFileList sv (introFiles @ contents m)\<rparr>"
  have data: "getRevisionAndTimemodified sv m courseId (Some introFiles) = Resolved ?data"
    by (rule getRevisionAndTimemodified_Some)
  have none: "\<not> truthy None"
    by (simp add: truthy_def)
  have d: "snd (download sv this m courseId calls) =
         calls @ [DownloadPackage (getId sv) (introFiles @ getContentDownloadableFiles m)
                    (get_prop this ''component'') (module_id m)
                    (revision ?data) (timemod ?data) None]"
    by (simp add: download_def downloadOrPrefetch_no_dirPath [OF none intro])
  have p: "snd (prefetchContent sv this m courseId single calls) =
         calls @ [PrefetchPackage (getId sv) (introFiles @ getContentDownloadableFiles m)
                    (get_prop this ''component'') (module_id m)
                    (revision ?data) (timemod ?data) None]"
    by (simp add: prefetchContent_def downloadOrPrefetch_no_dirPath [OF none intro])
  have dir: "snd (downloadOrPrefetch sv this m courseId False dirPath calls) =
            calls
            @ map (\<lambda>file. DownloadUrl (getId sv) (fileurl file) False
                            (get_prop this ''component'') (module_id m) (timemodified file))
                introFiles
            @ [DownloadPackage (getId sv) (getContentDownloadableFiles m)
                 (get_prop this ''component'') (module_id m)
                 (revision ?data) (timemod ?data) dirPath]
          \<and> snd (downloadOrPrefetch sv this m courseId True dirPath calls) =
            calls
            @ map (\<lambda>file. AddToQueueByUrl (getId sv) (fileurl file)
                            (get_prop this ''component'') (module_id m) (timemodified file))
                introFiles
            @ [PrefetchPackage (getId sv) (getContentDownloadableFiles m)
                 (get_prop this ''component'') (module_id m)
                 (revision ?data) (timemod ?data) dirPath]" if "truthy dirPath"
    by (simp add: downloadOrPrefetch_dirPath [OF that intro])
  from intro data d p dir show ?thesis
    by blast
qed

theorem download_described_module:
  "snd (download example_services (createPrefetchHandler ''mod_book'') described_module 1 []) =
     [DownloadPackage ''site1''
        [\<lparr>ftype = None, fileurl = Some ''i.png'', timemodified = None\<rparr>,
         content_file ''file'' ''a'' 100]
        (Some (Str ''mod_book'')) 7 3 100 None]
   \<and> snd (downloadOrPrefetch example_services (createPrefetchHandler ''mod_book'')
            described_module 1 False (Some ''dir'') []) =
     [DownloadUrl ''site1'' (Some ''i.png'') False (Some (Str ''mod_book'')) 7 None,
      DownloadPackage ''site1'' [content_file ''file'' ''a'' 100]
        (Some (Str ''mod_book'')) 7 3 100 (Some ''dir'')]"
  using download_single_package [where sv = example_services and m = described_module
      and courseId = 1 and this = "createPrefetchHandler ''mod_book''" and calls = "[]"
      and dirPath = "Some ''dir''"]
  by (auto simp add: described_intro described_content getRevisionAndTimemodified_Some truthy_def
      createPrefetchHandler_def object_create_def)
     (simp_all add: example_services_def described_module_def scenario_module_def content_file_def)

text \<open>
  The claim as it is written fails on the module with one intro file and one content
  file: \<^verbatim>\<open>download\<close> makes no call for the intro file alone; the file is part of the one
  package.
\<close>

theorem download_no_call_per_intro_file:
  "snd (download example_services modulePrefetchHandler described_module 1 []) =
     [DownloadPackage ''site1''
        [\<lparr>ftype = None, fileurl = Some ''i.png'', timemodified = None\<rparr>,
         content_file ''file'' ''a'' 100]
        (Some (Str ''core_res'')) 7 3 100 None]
   \<and> DownloadUrl ''site1'' (Some ''i.png'') False (Some (Str ''core_res'')) 7 None
       \<notin> set (snd (download example_services modulePrefetchHandler described_module 1 []))"
proof -
  have none: "\<not> truthy None"
    by (simp add: truthy_def)
  have "snd (download example_services modulePrefetchHandler described_module 1 []) =
     [DownloadPackage ''site1''
        [\<lparr>ftype = None, fileurl = Some ''i.png'', timemodified = None\<rparr>,
         content_file ''file'' ''a'' 100]
        (Some (Str ''core_res'')) 7 3 100 None]"
    unfolding download_def downloadOrPrefetch_no_dirPath [OF none described_intro] described_content
    by (simp add: example_services_def described_module_def scenario_module_def content_file_def
        modulePrefetchHandler_def)
  then show ?thesis
    by simp
qed

subsection \<open>The factory\<close>

lemma map_of_methods:
  "map_of (map (\<lambda>n. (n, TemplateFn n)) ns) n = (if n \<in> set ns then Some (TemplateFn n) else None)"
  by (induction ns) auto

lemma get_prop_modulePrefetchHandler:
  "get_prop modulePrefetchHandler n =
     (if n = ''component'' then Some (Str ''core_res'')
      else if n \<in> set method_names then Some (TemplateFn n) else None)"
  by (simp add: modulePrefetchHandler_def map_of_methods)

lemma get_prop_createPrefetchHandler:
  "get_prop (createPrefetchHandler c) n =
     (if n = ''component'' then Some (Str c) else get_prop modulePrefetchHandler n)"
  by (simp add: createPrefetchHandler_def object_create_def)

lemma get_prop_set_prop:
  "get_prop (set_prop h n v) n' = (if n' = n then Some v else get_prop h n')"
  by (cases h; cases "proto h") auto

lemma component_not_method: "''component'' \<notin> set method_names"
  by (simp add: method_names_def)

text \<open>On the objects the factory makes, every method name resolves to the template's
  function: a call \<^verbatim>\<open>this.f(...)\<close> inside a method runs the template's \<open>f\<close>.\<close>

lemma createPrefetchHandler_methods:
  "n \<in> set method_names \<Longrightarrow> get_prop (createPrefetchHandler c) n = Some (TemplateFn n)"
  using component_not_method
  by (auto simp add: get_prop_createPrefetchHandler get_prop_modulePrefetchHandler)

text \<open>
  C5: the object \<^verbatim>\<open>createPrefetchHandler(c)\<close> has the component \<open>c\<close>, and every other
  property resolves on it to what it resolves to on the template, so each of its
  operations is the template's function, run with the new object as \<^verbatim>\<open>this\<close> (the
  operations that read \<^verbatim>\<open>this.component\<close> then work under \<open>c\<close>); a property the caller
  assigns afterwards replaces the inherited one and leaves the others as they are.
\<close>

theorem createPrefetchHandler_inherits:
  "get_prop (createPrefetchHandler c) ''component'' = Some (Str c)
   \<and> (\<forall>n. n \<noteq> ''component'' \<longrightarrow>
         get_prop (createPrefetchHandler c) n = get_prop modulePrefetchHandler n)
   \<and> (\<forall>n \<in> set method_names. get_prop (createPrefetchHandler c) n = Some (TemplateFn n))
   \<and> (\<forall>n v n'. get_prop (set_prop (createPrefetchHandler c) n v) n' =
         (if n' = n then Some v else get_prop (createPrefetchHandler c) n'))
   \<and> getDownloadedSize sv (createPrefetchHandler c) m courseId =
       getFilesSizeByComponent sv (getId sv) (Some (Str c)) (module_id m)
   \<and> snd (invalidateContent sv (createPrefetchHandler c) moduleId calls) =
       calls @ [InvalidateFilesByComponent (getId sv) (Some (Str c)) moduleId]
   \<and> snd (removeFiles sv (createPrefetchHandler c) m courseId calls) =
       calls @ [RemoveFilesByComponent (getId sv) (Some (Str c)) (module_id m)]"
  using component_not_method
  by (auto simp add: get_prop_createPrefetchHandler get_prop_modulePrefetchHandler
      get_prop_set_prop getDownloadedSize_def invalidateContent_def removeFiles_def pool_def)

theorem createPrefetchHandler_mod_book:
  "get_prop (createPrefetchHandler ''mod_book'') ''component'' = Some (Str ''mod_book'')
   \<and> get_prop modulePrefetchHandler ''component'' = Some (Str ''core_res'')
   \<and> get_prop (createPrefetchHandler ''mod_book'') ''download'' = Some (TemplateFn ''download'')
   \<and> get_prop (set_prop (createPrefetchHandler ''mod_book'') ''isFileDownloadable'' (CallerFn 0))
        ''isFileDownloadable'' = Some (CallerFn 0)
   \<and> get_prop (set_prop (createPrefetchHandler ''mod_book'') ''isFileDownloadable'' (CallerFn 0))
        ''getFiles'' = Some (TemplateFn ''getFiles'')"
proof -
  note t = createPrefetchHandler_inherits [where c = "''mod_book''"]
  have component: "get_prop (createPrefetchHandler ''mod_book'') ''component'' = Some (Str ''mod_book'')"
    using t by (rule conjunct1)
  have template: "get_prop modulePrefetchHandler ''component'' = Some (Str ''core_res'')"
    by (simp add: get_prop_modulePrefetchHandler)
  have inherited: "get_prop (createPrefetchHandler ''mod_book'') n = Some (TemplateFn n)"
    if "n \<in> set method_names" for n
    using t [THEN conjunct2, THEN conjunct2, THEN conjunct1] that by (rule bspec)
  have override: "get_prop (set_prop (createPrefetchHandler ''mod_book'') n v) n' =
         (if n' = n then Some v else get_prop (createPrefetchHandler ''mod_book'') n')" for n v n'
    using t [THEN conjunct2, THEN conjunct2, THEN conjunct2, THEN conjunct1] by (elim allE)
  have download: "''download'' \<in> set method_names" and getFiles: "''getFiles'' \<in> set method_names"
    by (simp_all add: method_names_def)
  show ?thesis
    by (simp add: component template inherited [OF download] inherited [OF getFiles] override)
qed

end
